theory Spec2Isabelle
  imports Main "HOL-Library.Word"
begin

section \<open>The Ledger wallet subprovider (src/subproviders/ledger_wallet.ts)\<close>

text \<open>
  A shallow embedding of the class \<open>LedgerWallet\<close>. The object's private fields are a
  record; a method is a function of the record as it is at the time of the call. The
  device connection (\<open>LedgerEthConnection\<close>, not part of the file) is a parameter: three
  functions that answer a request from the history of all requests made so far, so that
  a device may answer the same request differently at different times. Every method
  threads that history and returns it extended by the requests it made, in order.
  \<open>getAccounts\<close>, \<open>signTransaction\<close> and \<open>signMessage\<close> return what they hand to their
  callback when they call it first: \<open>Inl err\<close> for \<open>callback(err, undefined)\<close> and
  \<open>Inr x\<close> for \<open>callback(undefined, x)\<close>. The model of \<open>testConnection\<close> includes the
  callback itself, which may return or throw, and lists all its calls.
\<close>

subsection \<open>Strings and buffers of the JavaScript runtime\<close>

type_synonym byte = "8 word"
type_synonym buffer = "byte list"

text \<open>\<open>String.prototype.toLowerCase\<close>, on the ASCII letters.\<close>

definition lower_char :: "char \<Rightarrow> char" where
  "lower_char c =
     (let n = (of_char c :: nat) in if 65 \<le> n \<and> n \<le> 90 then char_of (n + 32) else c)"

definition toLowerCase :: "string \<Rightarrow> string" where
  "toLowerCase s = map lower_char s"

text \<open>
  \<open>Number.prototype.toString(radix)\<close> on an integer: the digits \<open>0-9a-z\<close> of the
  magnitude, most significant first, after a minus sign when the number is negative.
  A number inside a template literal is rendered by \<open>toString(10)\<close>. (JavaScript
  writes integers from \<open>10^21\<close> on with an exponent; path indices and signature bytes
  are far below.)
\<close>

definition digit_char :: "nat \<Rightarrow> char" where
  "digit_char d = (if d < 10 then char_of (48 + d) else char_of (87 + d))"

function digits_of :: "nat \<Rightarrow> nat \<Rightarrow> string" where
  "digits_of radix n =
     (if radix < 2 \<or> n < radix then [digit_char n]
      else digits_of radix (n div radix) @ [digit_char (n mod radix)])"
  by pat_completeness auto
termination
  by (relation "measure (\<lambda>(radix, n). n)") auto

declare digits_of.simps [simp del]

definition Number_toString :: "nat \<Rightarrow> int \<Rightarrow> string" where
  "Number_toString radix n =
     (if n < 0 then CHR ''-'' # digits_of radix (nat (- n)) else digits_of radix (nat n))"

text \<open>\<open>Buffer.prototype.toString('hex')\<close>: two lowercase hex digits for each byte.\<close>

definition hex_of_byte :: "byte \<Rightarrow> string" where
  "hex_of_byte b = [digit_char (unat b div 16), digit_char (unat b mod 16)]"

definition Buffer_toString_hex :: "buffer \<Rightarrow> string" where
  "Buffer_toString_hex bs = concat (map hex_of_byte bs)"

text \<open>
  \<open>Buffer.from(string, 'hex')\<close>: one byte for each pair of hex digits, read from the
  left; decoding stops at the first pair that is not two hex digits, and a trailing
  single character is dropped.
\<close>

definition unhex :: "char \<Rightarrow> nat option" where
  "unhex c =
     (let n = (of_char c :: nat) in
      if 48 \<le> n \<and> n \<le> 57 then Some (n - 48)
      else if 97 \<le> n \<and> n \<le> 102 then Some (n - 87)
      else if 65 \<le> n \<and> n \<le> 70 then Some (n - 55)
      else None)"

fun Buffer_from_hex :: "string \<Rightarrow> buffer" where
  "Buffer_from_hex (a # b # rest) =
     (case (unhex a, unhex b) of
        (Some x, Some y) \<Rightarrow> of_nat (16 * x + y) # Buffer_from_hex rest
      | _ \<Rightarrow> [])"
| "Buffer_from_hex _ = []"

text \<open>\<open>Buffer.from(array)\<close> of integers: each entry is reduced modulo 256.\<close>

definition Buffer_from_array :: "int list \<Rightarrow> buffer" where
  "Buffer_from_array ns = map of_int ns"

text \<open>
  \<open>ethUtil.stripHexPrefix\<close> (ethereumjs-util): the string without a leading \<open>0x\<close>.
\<close>

fun stripHexPrefix :: "string \<Rightarrow> string" where
  "stripHexPrefix (a # b # rest) =
     (if a = CHR ''0'' \<and> b = CHR ''x'' then rest else a # b # rest)"
| "stripHexPrefix s = s"

subsection \<open>The device connection\<close>

text \<open>A JavaScript \<open>Error\<close> with its message; also what a device call rejects with.\<close>

datatype error = Error string

datatype request =
    GetAddress string bool bool
  | SignTransaction string string
  | SignPersonalMessage string string

text \<open>
  Modelled from the spec: the class \<open>LedgerEthConnection\<close> and the types of its answers
  are not under src/. For \<open>getAddress_async\<close> the answer is the \<open>address\<close> field of the
  result (the only field the wallet reads); for \<open>signTransaction_async\<close> the hex strings
  \<open>r\<close>, \<open>s\<close>, \<open>v\<close>; for \<open>signPersonalMessage_async\<close> the hex strings \<open>r\<close>, \<open>s\<close> and
  the integer that \<open>_.parseInt(result.v)\<close> reads. Each call may fail with an error.
\<close>

datatype tx_signature = TxSignature string string string

datatype msg_signature = MsgSignature string string int

record LedgerEthConnection =
  getAddress_async :: "request list \<Rightarrow> string \<Rightarrow> bool \<Rightarrow> bool \<Rightarrow> error + string"
  signTransaction_async :: "request list \<Rightarrow> string \<Rightarrow> string \<Rightarrow> error + tx_signature"
  signPersonalMessage_async :: "request list \<Rightarrow> string \<Rightarrow> string \<Rightarrow> error + msg_signature"

subsection \<open>The wallet\<close>

definition DEFAULT_DERIVATION_PATH :: string where
  "DEFAULT_DERIVATION_PATH = ''44'' @ [CHR 39] @ ''/60'' @ [CHR 39] @ ''/0'' @ [CHR 39]"

definition NUM_ADDRESSES_TO_FETCH :: nat where
  "NUM_ADDRESSES_TO_FETCH = 2"

definition ASK_FOR_ON_DEVICE_CONFIRMATION :: bool where
  "ASK_FOR_ON_DEVICE_CONFIRMATION = False"

definition SHOULD_GET_CHAIN_CODE :: bool where
  "SHOULD_GET_CHAIN_CODE = False"

record LedgerWallet =
  network :: int
  derivationPath :: string
  derivationPathIndex :: int
  ledgerEthConnection :: LedgerEthConnection
  shouldAlwaysAskForConfirmation :: bool
  shouldGetChainCode :: bool

text \<open>
  The constructor's argument. An optional field that is absent is \<open>None\<close>; JavaScript's
  \<open>x || d\<close> takes \<open>d\<close> also for the empty string, for 0 and for \<open>false\<close>.
\<close>

record LedgerSubproviderConfigs =
  cfg_networkId :: int
  cfg_ledgerConnection :: LedgerEthConnection
  cfg_derivationPath :: "string option"
  cfg_shouldAskForOnDeviceConfirmation :: "bool option"
  cfg_derivationPathIndex :: "int option"

definition new_LedgerWallet :: "LedgerSubproviderConfigs \<Rightarrow> LedgerWallet" where
  "new_LedgerWallet config =
     \<lparr> network = cfg_networkId config,
       derivationPath =
         (case cfg_derivationPath config of
            None \<Rightarrow> DEFAULT_DERIVATION_PATH
          | Some p \<Rightarrow> if p = [] then DEFAULT_DERIVATION_PATH else p),
       derivationPathIndex =
         (case cfg_derivationPathIndex config of None \<Rightarrow> 0 | Some i \<Rightarrow> i),
       ledgerEthConnection = cfg_ledgerConnection config,
       shouldAlwaysAskForConfirmation =
         (case cfg_shouldAskForOnDeviceConfirmation config of
            None \<Rightarrow> ASK_FOR_ON_DEVICE_CONFIRMATION
          | Some b \<Rightarrow> b \<or> ASK_FOR_ON_DEVICE_CONFIRMATION),
       shouldGetChainCode = SHOULD_GET_CHAIN_CODE \<rparr>"

definition getPath :: "LedgerWallet \<Rightarrow> string" where
  "getPath w = derivationPath w"

definition getDerivationPath :: "LedgerWallet \<Rightarrow> string" where
  "getDerivationPath w = getPath w @ ''/'' @ Number_toString 10 (derivationPathIndex w)"

definition setPath :: "string \<Rightarrow> LedgerWallet \<Rightarrow> LedgerWallet" where
  "setPath p w = w\<lparr>derivationPath := p\<rparr>"

definition setPathIndex :: "int \<Rightarrow> LedgerWallet \<Rightarrow> LedgerWallet" where
  "setPathIndex pathIndex w = w\<lparr>derivationPathIndex := pathIndex\<rparr>"

subsection \<open>getAccountsAsync\<close>

text \<open>
  The path of the loops: \<open>this._derivationPath\<close>, a slash, and the number
  \<open>i + this._derivationPathIndex\<close>.
\<close>

definition indexed_path :: "LedgerWallet \<Rightarrow> nat \<Rightarrow> string" where
  "indexed_path w i =
     derivationPath w @ ''/'' @ Number_toString 10 (int i + derivationPathIndex w)"

text \<open>The request the wallet makes for an address, with the flags of its configuration.\<close>

definition address_request :: "LedgerWallet \<Rightarrow> string \<Rightarrow> request" where
  "address_request w path =
     GetAddress path (shouldAlwaysAskForConfirmation w) (shouldGetChainCode w)"

definition fetch_address :: "LedgerWallet \<Rightarrow> string \<Rightarrow> request list \<Rightarrow> error + string" where
  "fetch_address w path log =
     getAddress_async (ledgerEthConnection w) log path
       (shouldAlwaysAskForConfirmation w) (shouldGetChainCode w)"

function getAccounts_loop ::
  "LedgerWallet \<Rightarrow> nat \<Rightarrow> string list \<Rightarrow> request list \<Rightarrow> (error + string list) \<times> request list"
where
  "getAccounts_loop w i accounts log =
     (if i < NUM_ADDRESSES_TO_FETCH then
        (let derivationPath = indexed_path w i in
         case fetch_address w derivationPath log of
           Inl err \<Rightarrow> (Inl err, log @ [address_request w derivationPath])
         | Inr result \<Rightarrow>
             getAccounts_loop w (Suc i) (accounts @ [toLowerCase result])
               (log @ [address_request w derivationPath]))
      else (Inr accounts, log))"
  by pat_completeness auto
termination
  by (relation "measure (\<lambda>(w, i, accounts, log). NUM_ADDRESSES_TO_FETCH - i)") auto

declare getAccounts_loop.simps [simp del]

definition getAccountsAsync ::
  "LedgerWallet \<Rightarrow> request list \<Rightarrow> (error + string list) \<times> request list" where
  "getAccountsAsync w log = getAccounts_loop w 0 [] log"

subsection \<open>signTransactionAsync\<close>

text \<open>
  Modelled from the spec: \<open>EthereumTx\<close> (package ethereumjs-tx) is not under src/. A
  transaction is its array \<open>raw\<close> of nine buffers (nonce, gasPrice, gasLimit, to, value,
  data, v, r, s); \<open>new EthereumTx(txParams)\<close> is the argument \<open>tx0\<close> of the method;
  assigning to \<open>tx.r\<close>, \<open>tx.s\<close>, \<open>tx.v\<close> stores the buffer in the field ("assigns them
  onto the transaction"); \<open>tx.serialize()\<close> is a parameter of the method.
\<close>

record EthereumTx =
  raw_nonce :: buffer
  raw_gasPrice :: buffer
  raw_gasLimit :: buffer
  raw_to :: buffer
  raw_value :: buffer
  raw_data :: buffer
  raw_v :: buffer
  raw_r :: buffer
  raw_s :: buffer

text \<open>Lines 103 to 105: the EIP155 placeholders in \<open>raw[6]\<close>, \<open>raw[7]\<close>, \<open>raw[8]\<close>.\<close>

definition unsigned_tx :: "LedgerWallet \<Rightarrow> EthereumTx \<Rightarrow> EthereumTx" where
  "unsigned_tx w tx =
     tx\<lparr>raw_v := Buffer_from_array [network w],
        raw_r := Buffer_from_array [],
        raw_s := Buffer_from_array []\<rparr>"

text \<open>
  \<open>Math.floor((tx.v[0] - 35) / 2)\<close>. An empty buffer has no first byte: \<open>tx.v[0]\<close> is
  \<open>undefined\<close> and the result is \<open>NaN\<close>, here \<open>None\<close>, which is unequal to every number.
\<close>

definition signedChainId :: "buffer \<Rightarrow> int option" where
  "signedChainId v = (case v of [] \<Rightarrow> None | b # _ \<Rightarrow> Some ((uint b - 35) div 2))"

definition signTransactionAsync ::
  "(EthereumTx \<Rightarrow> buffer) \<Rightarrow> LedgerWallet \<Rightarrow> EthereumTx \<Rightarrow> request list
     \<Rightarrow> (error + string) \<times> request list" where
  "signTransactionAsync serialize w tx0 log =
     (let tx = unsigned_tx w tx0;
          txHex = Buffer_toString_hex (serialize tx);
          derivationPath = getDerivationPath w;
          log1 = log @ [SignTransaction derivationPath txHex]
      in case signTransaction_async (ledgerEthConnection w) log derivationPath txHex of
           Inl err \<Rightarrow> (Inl err, log1)
         | Inr (TxSignature r s v) \<Rightarrow>
             (let signed = tx\<lparr>raw_r := Buffer_from_hex r,
                              raw_s := Buffer_from_hex s,
                              raw_v := Buffer_from_hex v\<rparr>
              in if signedChainId (raw_v signed) \<noteq> Some (network w)
                 then (Inl (Error ''TOO_OLD_LEDGER_FIRMWARE''), log1)
                 else (Inr (''0x'' @ Buffer_toString_hex (serialize signed)), log1)))"

subsection \<open>findAddressIndex and signPersonalMessageAsync\<close>

function findAddressIndex_loop ::
  "LedgerWallet \<Rightarrow> string \<Rightarrow> nat \<Rightarrow> nat \<Rightarrow> request list \<Rightarrow> (error + nat) \<times> request list"
where
  "findAddressIndex_loop w address maxTries i log =
     (if i < maxTries then
        (let derivationPath = indexed_path w i in
         case fetch_address w derivationPath log of
           Inl err \<Rightarrow> (Inl err, log @ [address_request w derivationPath])
         | Inr result \<Rightarrow>
             if toLowerCase address = toLowerCase result
             then (Inr i, log @ [address_request w derivationPath])
             else findAddressIndex_loop w address maxTries (Suc i)
                    (log @ [address_request w derivationPath]))
      else (Inl (Error ''Exhasuted max tries searching for address''), log))"
  by pat_completeness auto
termination
  by (relation "measure (\<lambda>(w, address, maxTries, i, log). maxTries - i)") auto

declare findAddressIndex_loop.simps [simp del]

definition findAddressIndex ::
  "LedgerWallet \<Rightarrow> string \<Rightarrow> nat \<Rightarrow> request list \<Rightarrow> (error + nat) \<times> request list" where
  "findAddressIndex w address maxTries log = findAddressIndex_loop w address maxTries 0 log"

text \<open>The first \<open>k\<close> address requests of a search or an enumeration.\<close>

definition probes :: "LedgerWallet \<Rightarrow> nat \<Rightarrow> request list" where
  "probes w k = map (\<lambda>j. address_request w (indexed_path w j)) [0..<k]"

datatype SignPersonalMessageParams =
  SignPersonalMessageParams (msg_data: string) (msg_from: "string option")

text \<open>
  Lines 135 to 139: \<open>addressIndex\<close> is 0, or what \<open>findAddressIndex(msgParams.from, 10)\<close>
  returns when \<open>msgParams.from\<close> is defined.
\<close>

definition resolve_addressIndex ::
  "LedgerWallet \<Rightarrow> SignPersonalMessageParams \<Rightarrow> request list \<Rightarrow> (error + nat) \<times> request list"
where
  "resolve_addressIndex w msgParams log =
     (case msg_from msgParams of
        None \<Rightarrow> (Inr 0, log)
      | Some sender \<Rightarrow> findAddressIndex w sender 10 log)"

text \<open>
  Lines 147 to 152: \<open>v = _.parseInt(result.v) - 27\<close>, \<open>vHex = v.toString(16)\<close>, and when
  \<open>vHex\<close> is shorter than two characters it becomes the template literal \<open>0${v}\<close>:
  the character 0 followed by \<open>v\<close> in decimal.
\<close>

definition normalized_v :: "int \<Rightarrow> string" where
  "normalized_v result_v =
     (let v = result_v - 27;
          vHex = Number_toString 16 v
      in if length vHex < 2 then ''0'' @ Number_toString 10 v else vHex)"

definition signature_hex :: "msg_signature \<Rightarrow> string" where
  "signature_hex result =
     (case result of MsgSignature r s v \<Rightarrow> ''0x'' @ r @ s @ normalized_v v)"

definition signPersonalMessageAsync ::
  "LedgerWallet \<Rightarrow> SignPersonalMessageParams \<Rightarrow> request list
     \<Rightarrow> (error + string) \<times> request list" where
  "signPersonalMessageAsync w msgParams log =
     (case resolve_addressIndex w msgParams log of
        (Inl err, log1) \<Rightarrow> (Inl err, log1)
      | (Inr addressIndex, log1) \<Rightarrow>
          (let derivationPath = derivationPath w @ ''/'' @ Number_toString 10 (int addressIndex);
               log2 = log1 @ [address_request w derivationPath];
               message = stripHexPrefix (msg_data msgParams);
               log3 = log2 @ [SignPersonalMessage derivationPath message]
           in case fetch_address w derivationPath log1 of
                Inl err \<Rightarrow> (Inl err, log2)
              | Inr address \<Rightarrow>
                  (case signPersonalMessage_async (ledgerEthConnection w) log2
                          derivationPath message of
                     Inl err \<Rightarrow> (Inl err, log3)
                   | Inr result \<Rightarrow> (Inr (signature_hex result), log3))))"

subsection \<open>testConnection\<close>

text \<open>
  The two promises settle in some order, each at most once, and each settlement runs the
  handlers chained on that promise to their end. The connection promise settles as the
  device answers the address request; the timer's promise only ever resolves.
  \<open>locked\<close> is the local flag, \<open>reported\<close> the calls of the callback so far, each with
  its two arguments.

  The callback is a parameter: from its earlier calls and its arguments it returns
  (\<open>None\<close>) or throws a value (\<open>Some thrown\<close>).
\<close>

datatype settlement = ConnectionResolved string | ConnectionRejected error | TimeoutResolved

type_synonym probe_callback =
  "(error option \<times> bool) list \<Rightarrow> error option \<times> bool \<Rightarrow> error option"

record probe_state =
  locked :: bool
  reported :: "(error option \<times> bool) list"

text \<open>
  The body of each of the four handlers:
  \<open>(locked || callback(err, connected)); locked = true\<close>. When the callback throws,
  the assignment is not reached and the handler throws the same value, which is the
  first component of the result.
\<close>

definition guarded_callback ::
  "probe_callback \<Rightarrow> error option \<times> bool \<Rightarrow> probe_state \<Rightarrow> error option \<times> probe_state"
where
  "guarded_callback callback args st =
     (if locked st then (None, st\<lparr>locked := True\<rparr>)
      else
        (case callback (reported st) args of
           None \<Rightarrow> (None, \<lparr> locked = True, reported = reported st @ [args] \<rparr>)
         | Some thrown \<Rightarrow> (Some thrown, \<lparr> locked = False, reported = reported st @ [args] \<rparr>)))"

text \<open>
  \<open>promise.then(onResolved).catch(onRejected)\<close> for a promise that resolves:
  \<open>onResolved\<close> runs with the arguments \<open>args\<close>, and when it throws, \<open>onRejected\<close> runs
  with the thrown value: \<open>(locked || callback(err, false)); locked = true\<close>. What
  \<open>onRejected\<close> throws is not handled by anyone.
\<close>

definition then_catch ::
  "probe_callback \<Rightarrow> error option \<times> bool \<Rightarrow> probe_state \<Rightarrow> probe_state" where
  "then_catch callback args st =
     (case guarded_callback callback args st of
        (None, st1) \<Rightarrow> st1
      | (Some thrown, st1) \<Rightarrow> snd (guarded_callback callback (Some thrown, False) st1))"

text \<open>
  Lines 72 to 75. A connection promise that rejects skips the handler of \<open>then\<close> and
  runs the handler of \<open>catch\<close> with the device's error.
\<close>

fun on_settlement :: "probe_callback \<Rightarrow> settlement \<Rightarrow> probe_state \<Rightarrow> probe_state" where
  "on_settlement callback (ConnectionResolved a) st = then_catch callback (None, True) st"
| "on_settlement callback (ConnectionRejected err) st =
     snd (guarded_callback callback (Some err, False) st)"
| "on_settlement callback TimeoutResolved st = then_catch callback (None, False) st"

text \<open>
  Which promise settles first is not decided by the method: it depends on the timer's
  duration and on the device, and is a parameter. The connection promise may also never
  settle.
\<close>

datatype race_order = ConnectionFirst | TimeoutFirst | ConnectionNever

definition testConnection ::
  "probe_callback \<Rightarrow> LedgerWallet \<Rightarrow> int \<Rightarrow> race_order \<Rightarrow> request list
     \<Rightarrow> (error option \<times> bool) list \<times> request list" where
  "testConnection callback w timeout order log =
     (let derivationPath = derivationPath w @ ''/0'';
          connection =
            (case getAddress_async (ledgerEthConnection w) log derivationPath False False of
               Inl err \<Rightarrow> ConnectionRejected err
             | Inr a \<Rightarrow> ConnectionResolved a);
          settlements =
            (case order of
               ConnectionFirst \<Rightarrow> [connection, TimeoutResolved]
             | TimeoutFirst \<Rightarrow> [TimeoutResolved, connection]
             | ConnectionNever \<Rightarrow> [TimeoutResolved])
      in (reported (fold (on_settlement callback) settlements
                      \<lparr> locked = False, reported = [] \<rparr>),
          log @ [GetAddress derivationPath False False]))"

subsection \<open>Sequences of setter calls\<close>

datatype setter_call = SetPath string | SetPathIndex int

fun call_setter :: "setter_call \<Rightarrow> LedgerWallet \<Rightarrow> LedgerWallet" where
  "call_setter (SetPath p) w = setPath p w"
| "call_setter (SetPathIndex i) w = setPathIndex i w"

definition call_setters :: "setter_call list \<Rightarrow> LedgerWallet \<Rightarrow> LedgerWallet" where
  "call_setters calls w = fold call_setter calls w"

text \<open>
  The argument of the last \<open>setPath\<close> (of the last \<open>setPathIndex\<close>) in a sequence of
  calls, and the given value when the sequence has none.
\<close>

definition last_set_path :: "setter_call list \<Rightarrow> string \<Rightarrow> string" where
  "last_set_path calls p0 =
     (case [c \<leftarrow> rev calls. case c of SetPath p \<Rightarrow> True | SetPathIndex i \<Rightarrow> False] of
        SetPath p # rest \<Rightarrow> p
      | _ \<Rightarrow> p0)"

definition last_set_index :: "setter_call list \<Rightarrow> int \<Rightarrow> int" where
  "last_set_index calls i0 =
     (case [c \<leftarrow> rev calls. case c of SetPath p \<Rightarrow> False | SetPathIndex i \<Rightarrow> True] of
        SetPathIndex i # rest \<Rightarrow> i
      | _ \<Rightarrow> i0)"

subsection \<open>A concrete device, wallet and transaction\<close>

text \<open>
  A device that owns four addresses under the base path \<open>m\<close>, signs every transaction
  with \<open>v = 0x25\<close> (chain 1) and every message with \<open>v = 28\<close>; a device that is locked;
  and a device that is unplugged after its first answer. The serializer concatenates
  the nine fields; it stands in for the RLP encoding.
\<close>

definition demo_addresses :: "(string \<times> string) list" where
  "demo_addresses =
     [(''m/0'', ''0xAA00''), (''m/1'', ''0xAA01''), (''m/2'', ''0xAA02''), (''m/3'', ''0xAA03'')]"

definition demo_connection :: LedgerEthConnection where
  "demo_connection =
     \<lparr> getAddress_async = (\<lambda>log path confirm chainCode.
         case map_of demo_addresses path of
           None \<Rightarrow> Inl (Error ''unknown path'')
         | Some a \<Rightarrow> Inr a),
       signTransaction_async = (\<lambda>log path txHex. Inr (TxSignature ''0a'' ''0b'' ''25'')),
       signPersonalMessage_async = (\<lambda>log path message. Inr (MsgSignature ''0a'' ''0b'' 28)) \<rparr>"

definition locked_connection :: LedgerEthConnection where
  "locked_connection =
     demo_connection\<lparr>getAddress_async := (\<lambda>log path confirm chainCode. Inl (Error ''locked''))\<rparr>"

definition unplugged_connection :: LedgerEthConnection where
  "unplugged_connection =
     demo_connection\<lparr>getAddress_async := (\<lambda>log path confirm chainCode.
        if log = [] then Inr ''0xAA00'' else Inl (Error ''unplugged''))\<rparr>"

definition demo_wallet :: LedgerWallet where
  "demo_wallet =
     \<lparr> network = 1, derivationPath = ''m'', derivationPathIndex = 0,
       ledgerEthConnection = demo_connection,
       shouldAlwaysAskForConfirmation = False, shouldGetChainCode = False \<rparr>"

definition demo_tx :: EthereumTx where
  "demo_tx =
     \<lparr> raw_nonce = [1], raw_gasPrice = [2], raw_gasLimit = [3], raw_to = [4],
       raw_value = [5], raw_data = [6], raw_v = [28], raw_r = [], raw_s = [] \<rparr>"

text \<open>A callback that always throws, and one that throws when it is called first.\<close>

definition throwing_callback :: probe_callback where
  "throwing_callback calls args = Some (Error ''callback failed'')"

definition throwing_once_callback :: probe_callback where
  "throwing_once_callback calls args =
     (if calls = [] then Some (Error ''callback failed'') else None)"

definition demo_serialize :: "EthereumTx \<Rightarrow> buffer" where
  "demo_serialize tx =
     concat [raw_nonce tx, raw_gasPrice tx, raw_gasLimit tx, raw_to tx, raw_value tx,
             raw_data tx, raw_v tx, raw_r tx, raw_s tx]"

section \<open>Properties\<close>

subsection \<open>The requests of a call\<close>

lemma Number_toString_zero: "Number_toString 10 0 = ''0''"
  by code_simp

lemma signTransaction_requests:
  "snd (signTransactionAsync serialize w tx0 log) =
     log @ [SignTransaction (getDerivationPath w)
              (Buffer_toString_hex (serialize (unsigned_tx w tx0)))]"
  by (simp add: signTransactionAsync_def Let_def split: sum.splits tx_signature.splits)

lemma signMessage_requests_after_resolution:
  assumes "resolve_addressIndex w msgParams log = (Inr k, log1)"
  shows "snd (signPersonalMessageAsync w msgParams log) =
           log1 @ [address_request w (derivationPath w @ ''/'' @ Number_toString 10 (int k))]
       \<or> snd (signPersonalMessageAsync w msgParams log) =
           log1 @ [address_request w (derivationPath w @ ''/'' @ Number_toString 10 (int k)),
                   SignPersonalMessage (derivationPath w @ ''/'' @ Number_toString 10 (int k))
                     (stripHexPrefix (msg_data msgParams))]"
  using assms
  by (simp add: signPersonalMessageAsync_def Let_def split: sum.splits)

lemma signMessage_resolution_failed:
  assumes "resolve_addressIndex w msgParams log = (Inl err, log1)"
  shows "signPersonalMessageAsync w msgParams log = (Inl err, log1)"
  using assms by (simp add: signPersonalMessageAsync_def)

subsection \<open>getAccounts\<close>

text \<open>
  C5. When the device answers both address requests of a call, \<open>getAccounts\<close> hands its
  callback exactly two addresses: the lower-cased answers for the paths with the
  configured path index and with the next index, in this order, and these two requests
  are all it asks of the device. This holds after every history of requests, so a call
  never answers from an earlier call's result.
\<close>

theorem getAccounts_reports_window:
  assumes "fetch_address w (indexed_path w 0) log = Inr a0"
    and "fetch_address w (indexed_path w 1) (log @ [address_request w (indexed_path w 0)]) = Inr a1"
  shows "getAccountsAsync w log =
           (Inr [toLowerCase a0, toLowerCase a1],
            log @ [address_request w (indexed_path w 0), address_request w (indexed_path w 1)])
     \<and> indexed_path w 0 = derivationPath w @ ''/'' @ Number_toString 10 (derivationPathIndex w)
     \<and> indexed_path w 1 = derivationPath w @ ''/'' @ Number_toString 10 (derivationPathIndex w + 1)
     \<and> address_request w (indexed_path w 0) =
         GetAddress (indexed_path w 0) (shouldAlwaysAskForConfirmation w) (shouldGetChainCode w)"
  using assms
  by (simp add: getAccountsAsync_def getAccounts_loop.simps NUM_ADDRESSES_TO_FETCH_def
      indexed_path_def address_request_def add.commute)

theorem getAccounts_reports_window_witness:
  "getAccountsAsync (demo_wallet\<lparr>derivationPathIndex := 2\<rparr>) [] =
     (Inr [''0xaa02'', ''0xaa03''],
      [GetAddress ''m/2'' False False, GetAddress ''m/3'' False False])"
proof -
  let ?w = "demo_wallet\<lparr>derivationPathIndex := 2\<rparr>"
  have h0: "fetch_address ?w (indexed_path ?w 0) [] = Inr ''0xAA02''"
    by code_simp
  have h1: "fetch_address ?w (indexed_path ?w 1) ([] @ [address_request ?w (indexed_path ?w 0)])
              = Inr ''0xAA03''"
    by code_simp
  show ?thesis
    unfolding getAccounts_reports_window [OF h0 h1, THEN conjunct1]
    by code_simp
qed

text \<open>
  C6. When the device fails on the first address request, or answers the first and fails
  on the second, the callback of \<open>getAccounts\<close> receives that error and no list, and the
  failed request is the last one the call makes.
\<close>

theorem getAccounts_fetch_failure:
  "(fetch_address w (indexed_path w 0) log = Inl err \<longrightarrow>
      getAccountsAsync w log = (Inl err, log @ [address_request w (indexed_path w 0)]))
   \<and> (fetch_address w (indexed_path w 0) log = Inr a0 \<and>
      fetch_address w (indexed_path w 1) (log @ [address_request w (indexed_path w 0)]) = Inl err \<longrightarrow>
      getAccountsAsync w log =
        (Inl err, log @ [address_request w (indexed_path w 0), address_request w (indexed_path w 1)]))"
  by (simp add: getAccountsAsync_def getAccounts_loop.simps NUM_ADDRESSES_TO_FETCH_def)

theorem getAccounts_fetch_failure_witness:
  "getAccountsAsync (demo_wallet\<lparr>ledgerEthConnection := locked_connection\<rparr>) [] =
     (Inl (Error ''locked''), [GetAddress ''m/0'' False False])
   \<and> getAccountsAsync (demo_wallet\<lparr>ledgerEthConnection := unplugged_connection\<rparr>) [] =
     (Inl (Error ''unplugged''), [GetAddress ''m/0'' False False, GetAddress ''m/1'' False False])"
proof -
  let ?l = "demo_wallet\<lparr>ledgerEthConnection := locked_connection\<rparr>"
  let ?u = "demo_wallet\<lparr>ledgerEthConnection := unplugged_connection\<rparr>"
  have h0: "fetch_address ?l (indexed_path ?l 0) [] = Inl (Error ''locked'')"
    by code_simp
  have h1: "fetch_address ?u (indexed_path ?u 0) [] = Inr ''0xAA00'' \<and>
            fetch_address ?u (indexed_path ?u 1) ([] @ [address_request ?u (indexed_path ?u 0)])
              = Inl (Error ''unplugged'')"
    by code_simp
  show ?thesis
    unfolding getAccounts_fetch_failure [THEN conjunct1, THEN mp, OF h0]
      getAccounts_fetch_failure [THEN conjunct2, THEN mp, OF h1]
    by code_simp
qed

subsection \<open>signTransaction\<close>

text \<open>
  C1. When the device answers the signing request with \<open>r\<close>, \<open>s\<close>, \<open>v\<close>, the callback of
  \<open>signTransaction\<close> receives the signed transaction, in hex after \<open>0x\<close>, if \<open>v\<close> has a
  first byte \<open>b\<close> and the floor of \<open>(b - 35) / 2\<close> is the configured chain id; in every
  other case it receives the error \<open>TOO_OLD_LEDGER_FIRMWARE\<close> and no transaction.
\<close>

theorem signTransaction_chain_id_check:
  assumes "signTransaction_async (ledgerEthConnection w) log (getDerivationPath w)
             (Buffer_toString_hex (serialize (unsigned_tx w tx0))) = Inr (TxSignature r s v)"
  shows "fst (signTransactionAsync serialize w tx0 log) =
    (case Buffer_from_hex v of
       [] \<Rightarrow> Inl (Error ''TOO_OLD_LEDGER_FIRMWARE'')
     | b # bs \<Rightarrow>
         if (uint b - 35) div 2 = network w
         then Inr (''0x'' @ Buffer_toString_hex (serialize ((unsigned_tx w tx0)
                \<lparr>raw_r := Buffer_from_hex r, raw_s := Buffer_from_hex s,
                  raw_v := Buffer_from_hex v\<rparr>)))
         else Inl (Error ''TOO_OLD_LEDGER_FIRMWARE''))"
  using assms
  by (simp add: signTransactionAsync_def Let_def signedChainId_def split: list.splits)

theorem signTransaction_chain_id_check_witness:
  "fst (signTransactionAsync demo_serialize demo_wallet demo_tx []) =
     Inr ''0x010203040506250a0b''
   \<and> fst (signTransactionAsync demo_serialize (demo_wallet\<lparr>network := 2\<rparr>) demo_tx []) =
     Inl (Error ''TOO_OLD_LEDGER_FIRMWARE'')"
proof -
  let ?w = "demo_wallet\<lparr>network := 2\<rparr>"
  have h1: "signTransaction_async (ledgerEthConnection demo_wallet) [] (getDerivationPath demo_wallet)
              (Buffer_toString_hex (demo_serialize (unsigned_tx demo_wallet demo_tx)))
            = Inr (TxSignature ''0a'' ''0b'' ''25'')"
    by code_simp
  have h2: "signTransaction_async (ledgerEthConnection ?w) [] (getDerivationPath ?w)
              (Buffer_toString_hex (demo_serialize (unsigned_tx ?w demo_tx)))
            = Inr (TxSignature ''0a'' ''0b'' ''25'')"
    by code_simp
  show ?thesis
    unfolding signTransaction_chain_id_check [where serialize = demo_serialize, OF h1]
      signTransaction_chain_id_check [where serialize = demo_serialize, OF h2]
    by code_simp
qed

lemma uint_byte_of_int: "uint (word_of_int n :: 8 word) = n mod 256"
  by (simp add: uint_word_of_int)

lemma mod_256_id: "((n::int) mod 256 = n) = (0 \<le> n \<and> n < 256)"
  by presburger

text \<open>
  The placeholders of the transaction that is sent to the device. The v slot holds one
  byte, the chain id modulo 256; chain ids that differ by 256 give the same
  transaction.
\<close>

lemma unsigned_tx_fields:
  "snd (signTransactionAsync serialize w tx0 log) =
      log @ [SignTransaction (getDerivationPath w)
               (Buffer_toString_hex (serialize (unsigned_tx w tx0)))]
   \<and> map uint (raw_v (unsigned_tx w tx0)) = [network w mod 256]
   \<and> raw_r (unsigned_tx w tx0) = []
   \<and> raw_s (unsigned_tx w tx0) = []
   \<and> ((map uint (raw_v (unsigned_tx w tx0)) = [network w]) = (0 \<le> network w \<and> network w < 256))"
  by (simp add: signTransaction_requests unsigned_tx_def Buffer_from_array_def
      uint_byte_of_int mod_256_id)

lemma byte_of_int_wraps: "(word_of_int (n + 256) :: 8 word) = word_of_int n"
  by (simp only: word_uint_eq_iff uint_byte_of_int) simp

lemma unsigned_tx_wraps:
  "unsigned_tx (w\<lparr>network := n + 256\<rparr>) tx0 = unsigned_tx (w\<lparr>network := n\<rparr>) tx0"
  by (simp add: unsigned_tx_def Buffer_from_array_def byte_of_int_wraps del: of_int_add)

text \<open>
  The chain id that the check reads from one byte lies between -18 and 110, so with
  any other configured chain id \<open>signTransaction\<close> never hands a transaction to its
  callback.
\<close>

lemma signedChainId_range:
  assumes "signedChainId v = Some c"
  shows "- 18 \<le> c \<and> c \<le> 110"
proof (cases v)
  case Nil
  with assms show ?thesis by (simp add: signedChainId_def)
next
  case (Cons b bs)
  with assms have c: "c = (uint b - 35) div 2" by (simp add: signedChainId_def)
  have "0 \<le> uint b" by (rule uint_ge_0)
  moreover have "uint b < 256" using uint_lt2p [of b] by simp
  ultimately show ?thesis unfolding c by presburger
qed

lemma signTransaction_never_succeeds_outside_byte_range:
  assumes "network w < - 18 \<or> 110 < network w"
  shows "fst (signTransactionAsync serialize w tx0 log) \<noteq> Inr x"
  using assms signedChainId_range [of _ "network w"]
  by (fastforce simp add: signTransactionAsync_def Let_def split: sum.splits tx_signature.splits)

text \<open>
  C3. With the chain id 1337 the v slot of the transaction sent to the device is the
  single byte 57, not 1337: \<open>Buffer.from([1337])\<close> keeps the number modulo 256. A
  device that signs what it was sent for chain 57 (\<open>v = 0x95\<close>) is answered with
  \<open>TOO_OLD_LEDGER_FIRMWARE\<close>.
\<close>

theorem signTransaction_v_slot_truncated:
  "map uint (raw_v (unsigned_tx (demo_wallet\<lparr>network := 1337\<rparr>) demo_tx)) = [57]
   \<and> map uint (raw_v (unsigned_tx (demo_wallet\<lparr>network := 1337\<rparr>) demo_tx))
       \<noteq> [network (demo_wallet\<lparr>network := 1337\<rparr>)]
   \<and> signTransactionAsync demo_serialize
        (demo_wallet\<lparr>network := 1337,
           ledgerEthConnection := demo_connection\<lparr>signTransaction_async :=
             (\<lambda>log path txHex. Inr (TxSignature ''0a'' ''0b'' ''95''))\<rparr>\<rparr>)
        demo_tx []
     = (Inl (Error ''TOO_OLD_LEDGER_FIRMWARE''),
        [SignTransaction ''m/0'' ''01020304050639''])"
  by code_simp

subsection \<open>signMessage\<close>

text \<open>
  The address search in general. As long as the fetched addresses differ from the
  sender's, the search goes on to the next index; after \<open>maxTries\<close> such probes it
  fails, and \<open>signMessage\<close> reports that error without a further request. On a match
  at the probe with number \<open>k\<close>, whose path has the index \<open>k\<close> plus the path index,
  the search returns \<open>k\<close>.
\<close>

lemma probes_Suc: "probes w (Suc k) = probes w k @ [address_request w (indexed_path w k)]"
  by (simp add: probes_def)

lemma findAddressIndex_loop_exhausted:
  assumes "\<forall>j. i \<le> j \<and> j < n \<longrightarrow>
             (\<exists>r. fetch_address w (indexed_path w j) (log @ probes w j) = Inr r
                  \<and> toLowerCase a \<noteq> toLowerCase r)"
    and "i \<le> n"
  shows "findAddressIndex_loop w a n i (log @ probes w i) =
           (Inl (Error ''Exhasuted max tries searching for address''), log @ probes w n)"
  using assms
proof (induction "n - i" arbitrary: i)
  case 0
  then have "i = n" by simp
  then show ?case by (simp add: findAddressIndex_loop.simps [of w a n n])
next
  case (Suc m)
  then have lt: "i < n" by simp
  with Suc.prems obtain r where
    r: "fetch_address w (indexed_path w i) (log @ probes w i) = Inr r"
       "toLowerCase a \<noteq> toLowerCase r"
    by blast
  have "findAddressIndex_loop w a n (Suc i) (log @ probes w (Suc i)) =
           (Inl (Error ''Exhasuted max tries searching for address''), log @ probes w n)"
    using Suc.hyps Suc.prems lt by (intro Suc.hyps(1)) auto
  with lt r show ?case
    by (subst findAddressIndex_loop.simps) (simp add: Let_def probes_Suc)
qed

lemma findAddressIndex_loop_match:
  assumes "\<forall>j. i \<le> j \<and> j < k \<longrightarrow>
             (\<exists>r. fetch_address w (indexed_path w j) (log @ probes w j) = Inr r
                  \<and> toLowerCase a \<noteq> toLowerCase r)"
    and "fetch_address w (indexed_path w k) (log @ probes w k) = Inr r"
    and "toLowerCase a = toLowerCase r"
    and "i \<le> k" and "k < n"
  shows "findAddressIndex_loop w a n i (log @ probes w i) = (Inr k, log @ probes w (Suc k))"
  using assms
proof (induction "k - i" arbitrary: i)
  case 0
  then have "i = k" by simp
  with 0 show ?case
    by (subst findAddressIndex_loop.simps) (simp add: Let_def probes_Suc)
next
  case (Suc m)
  then have lt: "i < k" by simp
  with Suc.prems obtain r' where
    r: "fetch_address w (indexed_path w i) (log @ probes w i) = Inr r'"
       "toLowerCase a \<noteq> toLowerCase r'"
    by blast
  have "findAddressIndex_loop w a n (Suc i) (log @ probes w (Suc i)) =
          (Inr k, log @ probes w (Suc k))"
    using Suc.hyps Suc.prems lt by (intro Suc.hyps(1)) auto
  with lt r Suc.prems show ?case
    by (subst findAddressIndex_loop.simps) (simp add: Let_def probes_Suc)
qed

lemma signMessage_address_not_found:
  assumes "\<forall>j<10. \<exists>r. fetch_address w (indexed_path w j) (log @ probes w j) = Inr r
                       \<and> toLowerCase a \<noteq> toLowerCase r"
  shows "signPersonalMessageAsync w (SignPersonalMessageParams d (Some a)) log =
           (Inl (Error ''Exhasuted max tries searching for address''), log @ probes w 10)"
proof -
  have "findAddressIndex_loop w a 10 0 (log @ probes w 0) =
           (Inl (Error ''Exhasuted max tries searching for address''), log @ probes w 10)"
    using assms by (intro findAddressIndex_loop_exhausted) auto
  then show ?thesis
    by (simp add: signPersonalMessageAsync_def resolve_addressIndex_def findAddressIndex_def
        probes_def)
qed

lemma resolve_addressIndex_loop_counter:
  assumes "\<forall>j<k. \<exists>r. fetch_address w (indexed_path w j) (log @ probes w j) = Inr r
                       \<and> toLowerCase a \<noteq> toLowerCase r"
    and "fetch_address w (indexed_path w k) (log @ probes w k) = Inr r"
    and "toLowerCase a = toLowerCase r"
    and "k < 10"
  shows "resolve_addressIndex w (SignPersonalMessageParams d (Some a)) log =
           (Inr k, log @ probes w (Suc k))"
proof -
  have "findAddressIndex_loop w a 10 0 (log @ probes w 0) = (Inr k, log @ probes w (Suc k))"
    using assms by (intro findAddressIndex_loop_match) auto
  then show ?thesis
    by (simp add: resolve_addressIndex_def findAddressIndex_def probes_def)
qed

text \<open>
  C2. With the path index 2, a message from the owner of index 3 is matched at the second
  probe (path \<open>m/3\<close>); \<open>findAddressIndex\<close> returns the probe's number 1, not the index 3,
  and the signature is requested at \<open>m/1\<close>, whose address is not the sender's.
\<close>

theorem signMessage_signs_at_probe_offset:
  "signPersonalMessageAsync (demo_wallet\<lparr>derivationPathIndex := 2\<rparr>)
      (SignPersonalMessageParams ''0x1234'' (Some ''0xaa03'')) []
     = (Inr ''0x0a0b01'',
        [GetAddress ''m/2'' False False, GetAddress ''m/3'' False False,
         GetAddress ''m/1'' False False, SignPersonalMessage ''m/1'' ''1234''])
   \<and> getAddress_async demo_connection
        [GetAddress ''m/2'' False False, GetAddress ''m/3'' False False] ''m/1'' False False
     = Inr ''0xAA01''
   \<and> toLowerCase ''0xAA01'' \<noteq> toLowerCase ''0xaa03''"
  by code_simp

text \<open>
  The suffix of a message signature. It is the two hex digits of \<open>v - 27\<close> when that
  number is a single decimal digit or has two hex digits.
\<close>

lemma normalized_v_27_28: "normalized_v 27 = ''00'' \<and> normalized_v 28 = ''01''"
  by code_simp

lemma char_of_48: "char_of (48::nat) = CHR ''0''"
  by code_simp

lemma normalized_v_two_hex_digits:
  assumes "27 \<le> v" and "v \<le> 36 \<or> 43 \<le> v" and "v \<le> 282"
  shows "normalized_v v = [digit_char (nat (v - 27) div 16), digit_char (nat (v - 27) mod 16)]"
proof (cases "v \<le> 36")
  case True
  with assms have n: "nat (v - 27) < 10" by simp
  then have "digits_of 16 (nat (v - 27)) = [digit_char (nat (v - 27))]"
    and "digits_of 10 (nat (v - 27)) = [digit_char (nat (v - 27))]"
    by (simp_all add: digits_of.simps)
  moreover from n have "nat (v - 27) div 16 = 0" and "nat (v - 27) mod 16 = nat (v - 27)"
    by simp_all
  ultimately show ?thesis
    using assms
    by (simp add: normalized_v_def Number_toString_def Let_def digit_char_def char_of_48)
next
  case False
  with assms have n: "16 \<le> nat (v - 27)" "nat (v - 27) < 256" by simp_all
  then have "nat (v - 27) div 16 < 16" by simp
  then have "digits_of 16 (nat (v - 27) div 16) = [digit_char (nat (v - 27) div 16)]"
    by (simp add: digits_of.simps)
  with n have "digits_of 16 (nat (v - 27)) =
      [digit_char (nat (v - 27) div 16), digit_char (nat (v - 27) mod 16)]"
    by (subst digits_of.simps) simp
  then show ?thesis
    using assms by (simp add: normalized_v_def Number_toString_def Let_def)
qed

text \<open>
  C4. For the device's \<open>v = 37\<close> the signature ends in the three characters \<open>010\<close>: the
  padding writes \<open>v - 27 = 10\<close> in decimal after the zero, where its hex digit is \<open>a\<close>.
\<close>

theorem signMessage_v_suffix_decimal:
  "signPersonalMessageAsync
      (demo_wallet\<lparr>ledgerEthConnection :=
         demo_connection\<lparr>signPersonalMessage_async :=
           (\<lambda>log path message. Inr (MsgSignature ''0a'' ''0b'' 37))\<rparr>\<rparr>)
      (SignPersonalMessageParams ''0x1234'' None) []
     = (Inr ''0x0a0b010'',
        [GetAddress ''m/0'' False False, SignPersonalMessage ''m/0'' ''1234''])
   \<and> normalized_v 37 = ''010''
   \<and> Number_toString 16 (37 - 27) = ''a''"
  by code_simp

text \<open>
  C10. Once the address index of a \<open>signMessage\<close> call is resolved (at once, to 0, when
  \<open>from\<close> is unset), the next request asks the device for the address at the signing
  path, and the signature request, if the call gets that far, follows it at the same
  path. A signature handed to the callback is built from the device's answer to the
  signature request alone.
\<close>

theorem signMessage_extra_getAddress:
  assumes "resolve_addressIndex w msgParams log = (Inr k, log1)"
  shows "(snd (signPersonalMessageAsync w msgParams log) =
            log1 @ [address_request w (derivationPath w @ ''/'' @ Number_toString 10 (int k))]
          \<or> snd (signPersonalMessageAsync w msgParams log) =
            log1 @ [address_request w (derivationPath w @ ''/'' @ Number_toString 10 (int k)),
                    SignPersonalMessage (derivationPath w @ ''/'' @ Number_toString 10 (int k))
                      (stripHexPrefix (msg_data msgParams))])
     \<and> (\<forall>sig. fst (signPersonalMessageAsync w msgParams log) = Inr sig \<longrightarrow>
           (\<exists>result.
              signPersonalMessage_async (ledgerEthConnection w)
                (log1 @ [address_request w (derivationPath w @ ''/'' @ Number_toString 10 (int k))])
                (derivationPath w @ ''/'' @ Number_toString 10 (int k))
                (stripHexPrefix (msg_data msgParams)) = Inr result
              \<and> sig = signature_hex result))
     \<and> resolve_addressIndex w (SignPersonalMessageParams d None) log = (Inr 0, log)"
  using assms
  by (auto simp add: signPersonalMessageAsync_def Let_def resolve_addressIndex_def
      split: sum.splits)

theorem signMessage_extra_getAddress_witness:
  "snd (signPersonalMessageAsync demo_wallet
          (SignPersonalMessageParams ''0x1234'' (Some ''0xaa01'')) []) =
     [GetAddress ''m/0'' False False, GetAddress ''m/1'' False False,
      GetAddress ''m/1'' False False, SignPersonalMessage ''m/1'' ''1234'']
   \<and> (\<exists>result.
         signPersonalMessage_async demo_connection
           [GetAddress ''m/0'' False False, GetAddress ''m/1'' False False,
            GetAddress ''m/1'' False False] ''m/1'' ''1234'' = Inr result
         \<and> ''0x0a0b01'' = signature_hex result)"
proof -
  let ?m = "SignPersonalMessageParams ''0x1234'' (Some ''0xaa01'')"
  let ?probes = "[GetAddress ''m/0'' False False, GetAddress ''m/1'' False False]"
  have h: "resolve_addressIndex demo_wallet ?m [] = (Inr 1, ?probes)"
    by code_simp
  have f: "fst (signPersonalMessageAsync demo_wallet ?m []) = Inr ''0x0a0b01''"
    by code_simp
  have p: "derivationPath demo_wallet @ ''/'' @ Number_toString 10 (int 1) = ''m/1''"
    and a: "address_request demo_wallet ''m/1'' = GetAddress ''m/1'' False False"
    and d: "stripHexPrefix (msg_data ?m) = ''1234''"
    by code_simp+
  have c: "ledgerEthConnection demo_wallet = demo_connection"
    by (simp add: demo_wallet_def)
  note r = signMessage_extra_getAddress [OF h, unfolded p a c d]
  from r have "snd (signPersonalMessageAsync demo_wallet ?m []) = ?probes @ [GetAddress ''m/1'' False False]
      \<or> snd (signPersonalMessageAsync demo_wallet ?m []) =
          ?probes @ [GetAddress ''m/1'' False False, SignPersonalMessage ''m/1'' ''1234'']"
    by (rule conjunct1)
  moreover have "snd (signPersonalMessageAsync demo_wallet ?m []) \<noteq> ?probes @ [GetAddress ''m/1'' False False]"
    by code_simp
  ultimately have l: "snd (signPersonalMessageAsync demo_wallet ?m []) =
          ?probes @ [GetAddress ''m/1'' False False, SignPersonalMessage ''m/1'' ''1234'']"
    by blast
  from r f have "\<exists>result.
         signPersonalMessage_async demo_connection (?probes @ [GetAddress ''m/1'' False False])
           ''m/1'' ''1234'' = Inr result
         \<and> ''0x0a0b01'' = signature_hex result"
    by blast
  with l show ?thesis by simp
qed

subsection \<open>setPath and setPathIndex\<close>

lemma last_set_nil: "last_set_path [] p0 = p0 \<and> last_set_index [] i0 = i0"
  by (simp add: last_set_path_def last_set_index_def)

lemma last_set_path_snoc:
  "last_set_path (calls @ [c]) p0 =
     (case c of SetPath p \<Rightarrow> p | SetPathIndex i \<Rightarrow> last_set_path calls p0)"
  by (simp add: last_set_path_def split: setter_call.splits)

lemma last_set_index_snoc:
  "last_set_index (calls @ [c]) i0 =
     (case c of SetPath p \<Rightarrow> last_set_index calls i0 | SetPathIndex i \<Rightarrow> i)"
  by (simp add: last_set_index_def split: setter_call.splits)

lemma call_setters_eq:
  "call_setters calls w =
     w\<lparr>derivationPath := last_set_path calls (derivationPath w),
       derivationPathIndex := last_set_index calls (derivationPathIndex w)\<rparr>"
proof (induction calls rule: rev_induct)
  case Nil
  show ?case by (simp add: call_setters_def last_set_nil)
next
  case (snoc c calls)
  have "call_setters (calls @ [c]) w = call_setter c (call_setters calls w)"
    by (simp add: call_setters_def)
  with snoc show ?case
    by (cases c) (simp_all add: last_set_path_snoc last_set_index_snoc setPath_def setPathIndex_def)
qed

text \<open>
  All requests of \<open>getAccounts\<close> and of \<open>signMessage\<close>. The address search makes
  between one and ten probes, at the indices that follow the path index.
\<close>

lemma getAccounts_requests:
  "snd (getAccountsAsync w log) = log @ [address_request w (indexed_path w 0)]
   \<or> snd (getAccountsAsync w log) =
        log @ [address_request w (indexed_path w 0), address_request w (indexed_path w 1)]"
  by (simp add: getAccountsAsync_def getAccounts_loop.simps NUM_ADDRESSES_TO_FETCH_def Let_def
      split: sum.splits)

lemma findAddressIndex_loop_probes:
  assumes "i < n"
  shows "\<exists>k. i < k \<and> k \<le> n \<and>
           snd (findAddressIndex_loop w a n i (log @ probes w i)) = log @ probes w k"
  using assms
proof (induction "n - i" arbitrary: i)
  case 0
  then show ?case by simp
next
  case (Suc m)
  show ?case
  proof (cases "fetch_address w (indexed_path w i) (log @ probes w i)")
    case (Inl e)
    with Suc.prems have "snd (findAddressIndex_loop w a n i (log @ probes w i)) = log @ probes w (Suc i)"
      by (subst findAddressIndex_loop.simps) (simp add: Let_def probes_Suc)
    with Suc.prems show ?thesis by (intro exI [of _ "Suc i"]) simp
  next
    case (Inr r)
    show ?thesis
    proof (cases "toLowerCase a = toLowerCase r")
      case True
      with Inr Suc.prems have "snd (findAddressIndex_loop w a n i (log @ probes w i)) = log @ probes w (Suc i)"
        by (subst findAddressIndex_loop.simps) (simp add: Let_def probes_Suc)
      with Suc.prems show ?thesis by (intro exI [of _ "Suc i"]) simp
    next
      case False
      with Inr Suc.prems have step: "findAddressIndex_loop w a n i (log @ probes w i) =
          findAddressIndex_loop w a n (Suc i) (log @ probes w (Suc i))"
        by (subst findAddressIndex_loop.simps) (simp add: Let_def probes_Suc)
      show ?thesis
      proof (cases "Suc i < n")
        case True
        from Suc.hyps(2) have "m = n - Suc i" by simp
        from Suc.hyps(1) [OF this True] obtain k where
          "Suc i < k" "k \<le> n"
          "snd (findAddressIndex_loop w a n (Suc i) (log @ probes w (Suc i))) = log @ probes w k"
          by blast
        with step show ?thesis by (intro exI [of _ k]) simp
      next
        case False
        with Suc.prems have "Suc i = n" by simp
        then have "snd (findAddressIndex_loop w a n (Suc i) (log @ probes w (Suc i))) = log @ probes w n"
          by (simp add: findAddressIndex_loop.simps [of w a n n])
        with step Suc.prems show ?thesis by (intro exI [of _ n]) simp
      qed
    qed
  qed
qed

lemma signMessage_requests_from:
  "\<exists>k n rest. 0 < k \<and> k \<le> 10 \<and>
     snd (signPersonalMessageAsync w (SignPersonalMessageParams d (Some a)) log) =
       log @ probes w k @ rest \<and>
     (rest = []
      \<or> rest = [address_request w (derivationPath w @ ''/'' @ Number_toString 10 n)]
      \<or> rest = [address_request w (derivationPath w @ ''/'' @ Number_toString 10 n),
                 SignPersonalMessage (derivationPath w @ ''/'' @ Number_toString 10 n)
                   (stripHexPrefix d)])"
proof -
  let ?m = "SignPersonalMessageParams d (Some a)"
  have "\<exists>k. 0 < k \<and> k \<le> 10 \<and>
           snd (findAddressIndex_loop w a 10 0 (log @ probes w 0)) = log @ probes w k"
    by (rule findAddressIndex_loop_probes) simp
  then obtain k where k: "0 < k" "k \<le> 10"
    and s: "snd (findAddressIndex w a 10 log) = log @ probes w k"
    by (auto simp: findAddressIndex_def probes_def)
  obtain res log1 where f: "resolve_addressIndex w ?m log = (res, log1)"
    by (cases "resolve_addressIndex w ?m log")
  with s have l: "log1 = log @ probes w k"
    by (simp add: resolve_addressIndex_def)
  show ?thesis
  proof (cases res)
    case (Inl e)
    with f l have "snd (signPersonalMessageAsync w ?m log) = log @ probes w k @ []"
      by (simp add: signMessage_resolution_failed)
    with k show ?thesis by blast
  next
    case (Inr i)
    with f have "resolve_addressIndex w ?m log = (Inr i, log1)" by simp
    from signMessage_requests_after_resolution [OF this] l
    have "snd (signPersonalMessageAsync w ?m log) =
            log @ probes w k @ [address_request w (derivationPath w @ ''/'' @ Number_toString 10 (int i))]
       \<or> snd (signPersonalMessageAsync w ?m log) =
            log @ probes w k @ [address_request w (derivationPath w @ ''/'' @ Number_toString 10 (int i)),
                   SignPersonalMessage (derivationPath w @ ''/'' @ Number_toString 10 (int i))
                     (stripHexPrefix d)]"
      by simp
    with k show ?thesis by blast
  qed
qed

lemma signMessage_requests_no_from:
  "snd (signPersonalMessageAsync w (SignPersonalMessageParams d None) log) =
     log @ [address_request w (derivationPath w @ ''/0'')]
   \<or> snd (signPersonalMessageAsync w (SignPersonalMessageParams d None) log) =
     log @ [address_request w (derivationPath w @ ''/0''),
            SignPersonalMessage (derivationPath w @ ''/0'') (stripHexPrefix d)]"
proof -
  have "resolve_addressIndex w (SignPersonalMessageParams d None) log = (Inr 0, log)"
    by (simp add: resolve_addressIndex_def)
  from signMessage_requests_after_resolution [OF this] show ?thesis
    by (simp add: Number_toString_zero)
qed

text \<open>
  After \<open>setPathIndex(2)\<close> the wallet's derivation path is \<open>m/2\<close>, but \<open>signMessage\<close>
  without \<open>from\<close> still asks for the address and the signature at \<open>m/0\<close>, and with
  the owner of index 3 as \<open>from\<close> it signs at \<open>m/1\<close>.
\<close>

theorem signMessage_ignores_set_index:
  "snd (signPersonalMessageAsync (call_setters [SetPathIndex 2] demo_wallet)
          (SignPersonalMessageParams ''0x1234'' None) []) =
     [GetAddress ''m/0'' False False, SignPersonalMessage ''m/0'' ''1234'']
   \<and> getDerivationPath (call_setters [SetPathIndex 2] demo_wallet) = ''m/2''
   \<and> snd (signPersonalMessageAsync (call_setters [SetPathIndex 2] demo_wallet)
          (SignPersonalMessageParams ''0x1234'' (Some ''0xaa03'')) []) =
     [GetAddress ''m/2'' False False, GetAddress ''m/3'' False False,
      GetAddress ''m/1'' False False, SignPersonalMessage ''m/1'' ''1234'']"
  by code_simp

text \<open>
  C7, as amended. After any sequence of \<open>setPath\<close> and \<open>setPathIndex\<close> calls the wallet
  holds the base path and the path index that were set last (the earlier ones where a
  setter was never called). \<open>signTransaction\<close> signs at that base path and index;
  \<open>getAccounts\<close> asks for that index and the next under that base path;
  \<open>signMessage\<close> without \<open>from\<close> asks for the address and the signature at index 0
  of that base path, whatever the path index is; \<open>signMessage\<close> with \<open>from\<close> searches
  from that index on under that base path, and what it asks after the search is under
  that base path (at which index is not stated here).
\<close>

theorem setters_take_effect:
  "call_setters calls w =
     w\<lparr>derivationPath := last_set_path calls (derivationPath w),
       derivationPathIndex := last_set_index calls (derivationPathIndex w)\<rparr>
   \<and> snd (signTransactionAsync serialize (call_setters calls w) tx0 log) =
       log @ [SignTransaction
                (last_set_path calls (derivationPath w) @ ''/'' @
                   Number_toString 10 (last_set_index calls (derivationPathIndex w)))
                (Buffer_toString_hex (serialize (unsigned_tx w tx0)))]
   \<and> (snd (getAccountsAsync (call_setters calls w) log) =
         log @ [GetAddress
                  (last_set_path calls (derivationPath w) @ ''/'' @
                     Number_toString 10 (last_set_index calls (derivationPathIndex w)))
                  (shouldAlwaysAskForConfirmation w) (shouldGetChainCode w)]
       \<or> snd (getAccountsAsync (call_setters calls w) log) =
         log @ [GetAddress
                  (last_set_path calls (derivationPath w) @ ''/'' @
                     Number_toString 10 (last_set_index calls (derivationPathIndex w)))
                  (shouldAlwaysAskForConfirmation w) (shouldGetChainCode w),
                GetAddress
                  (last_set_path calls (derivationPath w) @ ''/'' @
                     Number_toString 10 (last_set_index calls (derivationPathIndex w) + 1))
                  (shouldAlwaysAskForConfirmation w) (shouldGetChainCode w)])
   \<and> (snd (signPersonalMessageAsync (call_setters calls w)
              (SignPersonalMessageParams d None) log) =
         log @ [GetAddress (last_set_path calls (derivationPath w) @ ''/0'')
                  (shouldAlwaysAskForConfirmation w) (shouldGetChainCode w)]
       \<or> snd (signPersonalMessageAsync (call_setters calls w)
              (SignPersonalMessageParams d None) log) =
         log @ [GetAddress (last_set_path calls (derivationPath w) @ ''/0'')
                  (shouldAlwaysAskForConfirmation w) (shouldGetChainCode w),
                SignPersonalMessage (last_set_path calls (derivationPath w) @ ''/0'')
                  (stripHexPrefix d)])
   \<and> (\<exists>k n rest. 0 < k \<and> k \<le> 10 \<and>
         snd (signPersonalMessageAsync (call_setters calls w)
                (SignPersonalMessageParams d (Some a)) log) =
           log @ map (\<lambda>j. GetAddress
                             (last_set_path calls (derivationPath w) @ ''/'' @
                                Number_toString 10
                                  (int j + last_set_index calls (derivationPathIndex w)))
                             (shouldAlwaysAskForConfirmation w) (shouldGetChainCode w))
                   [0..<k] @ rest
         \<and> (rest = []
            \<or> rest = [GetAddress
                        (last_set_path calls (derivationPath w) @ ''/'' @ Number_toString 10 n)
                        (shouldAlwaysAskForConfirmation w) (shouldGetChainCode w)]
            \<or> rest = [GetAddress
                        (last_set_path calls (derivationPath w) @ ''/'' @ Number_toString 10 n)
                        (shouldAlwaysAskForConfirmation w) (shouldGetChainCode w),
                      SignPersonalMessage
                        (last_set_path calls (derivationPath w) @ ''/'' @ Number_toString 10 n)
                        (stripHexPrefix d)]))"
proof -
  let ?w = "call_setters calls w"
  let ?P = "last_set_path calls (derivationPath w)"
  let ?I = "last_set_index calls (derivationPathIndex w)"
  have eq: "?w = w\<lparr>derivationPath := ?P, derivationPathIndex := ?I\<rparr>"
    by (rule call_setters_eq)
  have p: "derivationPath ?w = ?P"
    and i: "derivationPathIndex ?w = ?I"
    and c: "shouldAlwaysAskForConfirmation ?w = shouldAlwaysAskForConfirmation w"
    and g: "shouldGetChainCode ?w = shouldGetChainCode w"
    and n: "network ?w = network w"
    by (simp_all add: eq)
  have u: "unsigned_tx ?w tx0 = unsigned_tx w tx0"
    by (simp add: unsigned_tx_def n)
  have req: "\<And>path. address_request ?w path =
      GetAddress path (shouldAlwaysAskForConfirmation w) (shouldGetChainCode w)"
    by (simp add: address_request_def c g)
  have ip: "\<And>j. indexed_path ?w j = ?P @ ''/'' @ Number_toString 10 (int j + ?I)"
    by (simp add: indexed_path_def p i)
  have pr: "\<And>k. probes ?w k =
      map (\<lambda>j. GetAddress (?P @ ''/'' @ Number_toString 10 (int j + ?I))
                 (shouldAlwaysAskForConfirmation w) (shouldGetChainCode w)) [0..<k]"
    by (simp add: probes_def req ip)
  have tx: "snd (signTransactionAsync serialize ?w tx0 log) =
       log @ [SignTransaction (?P @ ''/'' @ Number_toString 10 ?I)
                (Buffer_toString_hex (serialize (unsigned_tx w tx0)))]"
    by (simp add: signTransaction_requests getDerivationPath_def getPath_def p i u)
  have acc: "snd (getAccountsAsync ?w log) =
         log @ [GetAddress (?P @ ''/'' @ Number_toString 10 ?I)
                  (shouldAlwaysAskForConfirmation w) (shouldGetChainCode w)]
       \<or> snd (getAccountsAsync ?w log) =
         log @ [GetAddress (?P @ ''/'' @ Number_toString 10 ?I)
                  (shouldAlwaysAskForConfirmation w) (shouldGetChainCode w),
                GetAddress (?P @ ''/'' @ Number_toString 10 (?I + 1))
                  (shouldAlwaysAskForConfirmation w) (shouldGetChainCode w)]"
    using getAccounts_requests [of ?w log] by (simp add: req ip add.commute)
  have m0: "snd (signPersonalMessageAsync ?w (SignPersonalMessageParams d None) log) =
         log @ [GetAddress (?P @ ''/0'')
                  (shouldAlwaysAskForConfirmation w) (shouldGetChainCode w)]
       \<or> snd (signPersonalMessageAsync ?w (SignPersonalMessageParams d None) log) =
         log @ [GetAddress (?P @ ''/0'')
                  (shouldAlwaysAskForConfirmation w) (shouldGetChainCode w),
                SignPersonalMessage (?P @ ''/0'') (stripHexPrefix d)]"
    using signMessage_requests_no_from [of ?w d log] by (simp add: req p)
  have m1: "\<exists>k n rest. 0 < k \<and> k \<le> 10 \<and>
         snd (signPersonalMessageAsync ?w (SignPersonalMessageParams d (Some a)) log) =
           log @ map (\<lambda>j. GetAddress (?P @ ''/'' @ Number_toString 10 (int j + ?I))
                             (shouldAlwaysAskForConfirmation w) (shouldGetChainCode w))
                   [0..<k] @ rest
         \<and> (rest = []
            \<or> rest = [GetAddress (?P @ ''/'' @ Number_toString 10 n)
                        (shouldAlwaysAskForConfirmation w) (shouldGetChainCode w)]
            \<or> rest = [GetAddress (?P @ ''/'' @ Number_toString 10 n)
                        (shouldAlwaysAskForConfirmation w) (shouldGetChainCode w),
                      SignPersonalMessage (?P @ ''/'' @ Number_toString 10 n)
                        (stripHexPrefix d)])"
    using signMessage_requests_from [of ?w d a log] by (simp only: req pr p)
  from eq tx acc m0 m1 show ?thesis by (intro conjI)
qed

subsection \<open>testConnection\<close>

text \<open>
  With a callback that returns whenever it is called, the first handler that runs
  calls it and sets \<open>locked\<close>, and no later handler calls it again.
\<close>

lemma guarded_callback_locked:
  "locked st \<Longrightarrow> guarded_callback callback args st = (None, st)"
  by (simp add: guarded_callback_def)

lemma on_settlement_locked: "locked st \<Longrightarrow> on_settlement callback e st = st"
  by (cases e) (simp_all add: then_catch_def guarded_callback_locked)

lemma fold_on_settlement_locked:
  "locked st \<Longrightarrow> fold (on_settlement callback) es st = st"
  by (induction es arbitrary: st) (simp_all add: on_settlement_locked)

lemma settlements_report_once_when_callback_returns:
  assumes "\<And>calls args. callback calls args = None"
  shows "reported (fold (on_settlement callback) (e # es) \<lparr> locked = False, reported = [] \<rparr>) =
     [case e of
        ConnectionResolved a \<Rightarrow> (None, True)
      | ConnectionRejected err \<Rightarrow> (Some err, False)
      | TimeoutResolved \<Rightarrow> (None, False)]"
  by (cases e)
    (simp_all add: then_catch_def guarded_callback_def assms fold_on_settlement_locked)

lemma testConnection_reports_once_when_callback_returns:
  assumes "\<And>calls args. callback calls args = None"
  shows "fst (testConnection callback w timeout order log) =
     [case order of
        ConnectionFirst \<Rightarrow>
          (case getAddress_async (ledgerEthConnection w) log (derivationPath w @ ''/0'')
                  False False of
             Inl err \<Rightarrow> (Some err, False)
           | Inr a \<Rightarrow> (None, True))
      | TimeoutFirst \<Rightarrow> (None, False)
      | ConnectionNever \<Rightarrow> (None, False)]"
  by (simp add: testConnection_def Let_def then_catch_def guarded_callback_def assms
      split: race_order.splits sum.splits)

text \<open>
  C8. With a callback that throws, \<open>locked\<close> is never set: when the device answers
  first, the callback is called by the handler of \<open>then\<close> on the connection promise,
  again by the handler of its \<open>catch\<close> with the thrown value, and twice more in the
  same way when the timer fires: four calls, not one. With a callback that throws only
  when called first, the handler of \<open>catch\<close> calls it a second time.
\<close>

theorem testConnection_throwing_callback_called_again:
  "fst (testConnection throwing_callback demo_wallet 1000 ConnectionFirst []) =
     [(None, True), (Some (Error ''callback failed''), False),
      (None, False), (Some (Error ''callback failed''), False)]
   \<and> fst (testConnection throwing_once_callback demo_wallet 1000 ConnectionFirst []) =
     [(None, True), (Some (Error ''callback failed''), False)]
   \<and> fst (testConnection throwing_once_callback demo_wallet 1000 TimeoutFirst []) =
     [(None, False), (Some (Error ''callback failed''), False)]"
  by code_simp

text \<open>
  C9. The one request of \<open>testConnection\<close> asks for the address at index 0 of the base
  path with both flags false, whatever the wallet's confirmation setting is.
\<close>

theorem testConnection_probe_flags:
  "snd (testConnection callback w timeout order log) =
     log @ [GetAddress (derivationPath w @ ''/0'') False False]
   \<and> testConnection callback (w\<lparr>shouldAlwaysAskForConfirmation := b\<rparr>) timeout order log =
     testConnection callback w timeout order log"
  by (simp add: testConnection_def Let_def)

end
